theory Spec2Isabelle
  imports Complex_Main
begin

section \<open>NGS datasheet parser: \<open>scripts/parseNGSDatasheets.js\<close>\<close>

text \<open>
  The development embeds \<open>NGSDatasheetParser.parseDatasheetFile\<close> (the first class of
  \<open>scripts/parseNGSDatasheets.js\<close>, the one with \<open>maxBenchmarks = 1000\<close>).

  Conventions of the embedding:
  \<^item> a JavaScript string is a \<open>string\<close>; the lines are the ones \<open>readline\<close> delivers, in
    order, for a stream that is read to its end;
  \<^item> \<open>null\<close> is \<open>None\<close>;
  \<^item> a JavaScript number is a \<open>jsnum\<close>: \<open>NaN\<close> or an exact rational. Rounding of IEEE
    doubles is not modelled: sums and quotients are the exact ones;
  \<^item> \<open>String.prototype.match\<close> with a non-global regular expression is a backtracking
    matcher over the regular expression's syntax tree, tried at every start position from
    the left.
\<close>

subsection \<open>Strings\<close>

fun startsWith :: "string \<Rightarrow> string \<Rightarrow> bool" where
  "startsWith s [] = True"
| "startsWith [] (p # ps) = False"
| "startsWith (c # cs) (p # ps) = (c = p \<and> startsWith cs ps)"

text \<open>\<open>line.includes(p)\<close>: \<open>p\<close> occurs in \<open>line\<close> at some position.\<close>

fun includes_str :: "string \<Rightarrow> string \<Rightarrow> bool" where
  "includes_str [] p = (p = [])"
| "includes_str (c # cs) p = (startsWith (c # cs) p \<or> includes_str cs p)"

text \<open>Character classes of the regular expressions: \<open>\d\<close>, \<open>\s\<close>, \<open>.\<close>, \<open>[A-Z0-9]\<close>,
  \<open>[\d.]\<close>, \<open>[\d.-]\<close>, \<open>[NS]\<close>, \<open>[EW]\<close>.\<close>

definition cls_d :: "char \<Rightarrow> bool" where
  "cls_d c = (c \<in> set ''0123456789'')"

definition cls_s :: "char \<Rightarrow> bool" where
  "cls_s c = (c \<in> set [CHR 0x09, CHR 0x0A, CHR 0x0B, CHR 0x0C, CHR 0x0D, CHR 0x20, CHR 0xA0])"

definition cls_dot :: "char \<Rightarrow> bool" where
  "cls_dot c = (c \<notin> set [CHR 0x0A, CHR 0x0D])"

definition cls_AZ09 :: "char \<Rightarrow> bool" where
  "cls_AZ09 c = (c \<in> set ''ABCDEFGHIJKLMNOPQRSTUVWXYZ0123456789'')"

definition cls_d_dot :: "char \<Rightarrow> bool" where
  "cls_d_dot c = (cls_d c \<or> c = CHR ''.'')"

definition cls_d_dot_minus :: "char \<Rightarrow> bool" where
  "cls_d_dot_minus c = (cls_d c \<or> c = CHR ''.'' \<or> c = CHR ''-'')"

definition cls_NS :: "char \<Rightarrow> bool" where
  "cls_NS c = (c = CHR ''N'' \<or> c = CHR ''S'')"

definition cls_EW :: "char \<Rightarrow> bool" where
  "cls_EW c = (c = CHR ''E'' \<or> c = CHR ''W'')"

text \<open>\<open>String.prototype.trim\<close>.\<close>

definition trim :: "string \<Rightarrow> string" where
  "trim s = rev (dropWhile cls_s (rev (dropWhile cls_s s)))"

subsection \<open>Regular expressions\<close>

text \<open>
  The fragment the parser uses: literals, one character of a class, greedy \<open>*\<close> and \<open>+\<close>
  over a class, capturing groups, concatenation and alternation.
\<close>

datatype regex =
    Lit string
  | Cls "char \<Rightarrow> bool"
  | Star "char \<Rightarrow> bool"
  | Plus "char \<Rightarrow> bool"
  | Grp regex
  | Seq regex regex
  | Alt regex regex

text \<open>Greedy repetition: the longest run first, then one character less, down to \<open>lo\<close>.\<close>

fun greedy :: "nat \<Rightarrow> nat \<Rightarrow> (nat \<Rightarrow> 'a option) \<Rightarrow> 'a option" where
  "greedy lo 0 f = (if lo = 0 then f 0 else None)"
| "greedy lo (Suc n) f =
     (if Suc n < lo then None
      else (case f (Suc n) of Some r \<Rightarrow> Some r | None \<Rightarrow> greedy lo n f))"

text \<open>
  \<open>rmatch r s caps k\<close>: match \<open>r\<close> at the head of \<open>s\<close>, with the captures so far, and hand
  the rest of the input and the captures to the continuation \<open>k\<close>; a failing continuation
  makes the matcher backtrack.
\<close>

primrec rmatch ::
  "regex \<Rightarrow> string \<Rightarrow> string list \<Rightarrow> (string \<Rightarrow> string list \<Rightarrow> string list option)
     \<Rightarrow> string list option" where
  "rmatch (Lit l) s caps k = (if startsWith s l then k (drop (length l) s) caps else None)"
| "rmatch (Cls P) s caps k =
     (case s of [] \<Rightarrow> None | c # cs \<Rightarrow> if P c then k cs caps else None)"
| "rmatch (Star P) s caps k = greedy 0 (length (takeWhile P s)) (\<lambda>n. k (drop n s) caps)"
| "rmatch (Plus P) s caps k = greedy 1 (length (takeWhile P s)) (\<lambda>n. k (drop n s) caps)"
| "rmatch (Grp r) s caps k =
     rmatch r s caps (\<lambda>s' caps'. k s' (caps' @ [take (length s - length s') s]))"
| "rmatch (Seq a b) s caps k = rmatch a s caps (\<lambda>s' caps'. rmatch b s' caps' k)"
| "rmatch (Alt a b) s caps k =
     (case rmatch a s caps k of Some r \<Rightarrow> Some r | None \<Rightarrow> rmatch b s caps k)"

definition matchAt :: "regex \<Rightarrow> string \<Rightarrow> string list option" where
  "matchAt r s = rmatch r s [] (\<lambda>s' caps. Some caps)"

text \<open>\<open>s.match(r)\<close>: the leftmost match; the result is the list of the captures
  (\<open>m[1]\<close>, \<open>m[2]\<close>, ...), \<open>None\<close> for \<open>null\<close>.\<close>

fun str_match :: "string \<Rightarrow> regex \<Rightarrow> string list option" where
  "str_match [] r = matchAt r []"
| "str_match (c # cs) r =
     (case matchAt r (c # cs) of Some caps \<Rightarrow> Some caps | None \<Rightarrow> str_match cs r)"

fun seqs :: "regex list \<Rightarrow> regex" where
  "seqs [] = Lit []"
| "seqs [r] = r"
| "seqs (r # rs) = Seq r (seqs rs)"

text \<open>\<open>/PID\s*-\s*([A-Z0-9]+)/\<close>\<close>

definition pidRegex :: regex where
  "pidRegex = seqs [Lit ''PID'', Star cls_s, Lit ''-'', Star cls_s, Grp (Plus cls_AZ09)]"

text \<open>\<open>/(\d+)\s+(\d+)\s+([\d.]+)\(([NS])\)\s+(\d+)\s+(\d+)\s+([\d.]+)\(([EW])\)/\<close>\<close>

definition coordRegex :: regex where
  "coordRegex = seqs
     [Grp (Plus cls_d), Plus cls_s, Grp (Plus cls_d), Plus cls_s, Grp (Plus cls_d_dot),
      Lit ''('', Grp (Cls cls_NS), Lit '')'', Plus cls_s,
      Grp (Plus cls_d), Plus cls_s, Grp (Plus cls_d), Plus cls_s, Grp (Plus cls_d_dot),
      Lit ''('', Grp (Cls cls_EW), Lit '')'']"

text \<open>\<open>/(?:ELLIP HT-|ORTHO HEIGHT\s*-)\s*([\d.-]+)\s*\(meters\)/\<close>\<close>

definition elevRegex :: regex where
  "elevRegex = seqs
     [Alt (Lit ''ELLIP HT-'') (seqs [Lit ''ORTHO HEIGHT'', Star cls_s, Lit ''-'']),
      Star cls_s, Grp (Plus cls_d_dot_minus), Star cls_s, Lit ''(meters)'']"

text \<open>\<open>/DESIGNATION\s*-\s*(.+)/\<close>\<close>

definition nameRegex :: regex where
  "nameRegex = seqs [Lit ''DESIGNATION'', Star cls_s, Lit ''-'', Star cls_s, Grp (Plus cls_dot)]"

subsection \<open>Numbers\<close>

datatype jsnum = NaN | Val rat

fun num_add :: "jsnum \<Rightarrow> jsnum \<Rightarrow> jsnum" where
  "num_add (Val a) (Val b) = Val (a + b)"
| "num_add _ _ = NaN"

text \<open>Division by a non-zero constant (the code divides by 60 and by 3600 only).\<close>

fun num_div :: "jsnum \<Rightarrow> rat \<Rightarrow> jsnum" where
  "num_div (Val a) d = Val (a / d)"
| "num_div NaN d = NaN"

fun num_neg :: "jsnum \<Rightarrow> jsnum" where
  "num_neg (Val a) = Val (- a)"
| "num_neg NaN = NaN"

definition digitVal :: "char \<Rightarrow> nat" where
  "digitVal c = of_char c - 48"

definition decimal :: "string \<Rightarrow> nat" where
  "decimal ds = foldl (\<lambda>a c. 10 * a + digitVal c) 0 ds"

text \<open>
  \<open>parseInt(s)\<close> on a capture of \<open>\d+\<close>: the value of the leading decimal digits, \<open>NaN\<close>
  when there is none. (Leading white space, a sign and the \<open>0x\<close> prefix, which
  \<open>parseInt\<close> also accepts, cannot occur in such a capture.)
\<close>

definition parseInt :: "string \<Rightarrow> jsnum" where
  "parseInt s =
     (let ds = takeWhile cls_d s in if ds = [] then NaN else Val (of_nat (decimal ds)))"

text \<open>
  \<open>parseFloat(s)\<close> on a capture of \<open>[\d.]+\<close> or \<open>[\d.-]+\<close>: an optional sign, then the
  longest prefix of the form \<open>digits\<close>, \<open>digits.\<close>, \<open>digits.digits\<close> or \<open>.digits\<close>;
  \<open>NaN\<close> when there is no such prefix. (An exponent, \<open>Infinity\<close> and leading white
  space cannot occur in such a capture.)
\<close>

definition parseUnsigned :: "string \<Rightarrow> jsnum" where
  "parseUnsigned s =
     (let ip = takeWhile cls_d s;
          rest = dropWhile cls_d s;
          fp = (case rest of [] \<Rightarrow> [] | c # cs \<Rightarrow> if c = CHR ''.'' then takeWhile cls_d cs else [])
      in if ip = [] \<and> fp = [] then NaN
         else Val (of_nat (decimal ip) + of_nat (decimal fp) / 10 ^ length fp))"

definition parseFloat :: "string \<Rightarrow> jsnum" where
  "parseFloat s =
     (case s of
        [] \<Rightarrow> NaN
      | c # cs \<Rightarrow>
          if c = CHR ''-'' then num_neg (parseUnsigned cs)
          else if c = CHR ''+'' then parseUnsigned cs
          else parseUnsigned s)"

subsection \<open>The benchmark record\<close>

record benchmark =
  id_fld :: "string option"
  name_fld :: "string option"
  type_fld :: string
  latitude :: "jsnum option"
  longitude :: "jsnum option"
  elevation :: "jsnum option"
  state_fld :: string
  description :: "string option"
  datasheet_url :: "string option"

text \<open>The object literal of \<open>// Start new benchmark\<close>; \<open>datasheet_url\<close> is absent from
  it (\<open>None\<close>) until the record is saved.\<close>

definition newBenchmark :: "string \<Rightarrow> benchmark" where
  "newBenchmark stateCode =
     \<lparr>id_fld = None, name_fld = None, type_fld = ''Control Point'',
      latitude = None, longitude = None, elevation = None,
      state_fld = stateCode, description = None, datasheet_url = None\<rparr>"

text \<open>JavaScript truthiness of a number-or-null and of a string-or-null.\<close>

fun truthyNum :: "jsnum option \<Rightarrow> bool" where
  "truthyNum None = False"
| "truthyNum (Some NaN) = False"
| "truthyNum (Some (Val q)) = (q \<noteq> 0)"

fun truthyStr :: "string option \<Rightarrow> bool" where
  "truthyStr None = False"
| "truthyStr (Some s) = (s \<noteq> [])"

text \<open>\<open>currentBenchmark.latitude && currentBenchmark.longitude && currentBenchmark.id\<close>\<close>

definition hasValidData :: "benchmark \<Rightarrow> bool" where
  "hasValidData b = (truthyNum (latitude b) \<and> truthyNum (longitude b) \<and> truthyStr (id_fld b))"

subsection \<open>Field extraction\<close>

text \<open>
  Each rule of the loop body is a test on the line followed by an assignment to the open
  record. The test and the value it computes depend on the line only (\<open>pidOf\<close>,
  \<open>positionOf\<close>, \<open>elevationOf\<close>, \<open>designationOf\<close>, \<open>typeOf\<close>: \<open>None\<close> when the
  rule does not fire); the assignment is the function of the same rule below it.
\<close>

text \<open>\<open>// Parse PID\<close>\<close>

definition pidOf :: "string \<Rightarrow> string option" where
  "pidOf line =
     (if includes_str line ''PID'' \<and> includes_str line ''-'' then
        (case str_match line pidRegex of Some [pid] \<Rightarrow> Some pid | _ \<Rightarrow> None)
      else None)"

definition parsePID :: "string \<Rightarrow> benchmark \<Rightarrow> benchmark" where
  "parsePID line b = (case pidOf line of None \<Rightarrow> b | Some pid \<Rightarrow> b\<lparr>id_fld := Some pid\<rparr>)"

text \<open>\<open>// Parse coordinates\<close>: \<open>deg + (min / 60) + (sec / 3600)\<close> on the parsed captures,
  then the sign of the hemisphere.\<close>

definition dmsToDecimal :: "string \<Rightarrow> string \<Rightarrow> string \<Rightarrow> jsnum" where
  "dmsToDecimal deg mn sec =
     num_add (num_add (parseInt deg) (num_div (parseInt mn) 60)) (num_div (parseFloat sec) 3600)"

definition convertCaptures :: "string list \<Rightarrow> (jsnum \<times> jsnum) option" where
  "convertCaptures caps =
     (case caps of
        [latDeg, latMin, latSec, latHem, lonDeg, lonMin, lonSec, lonHem] \<Rightarrow>
          (let lat = dmsToDecimal latDeg latMin latSec;
               lon = dmsToDecimal lonDeg lonMin lonSec
           in Some (if latHem = ''S'' then num_neg lat else lat,
                    if lonHem = ''W'' then num_neg lon else lon))
      | _ \<Rightarrow> None)"

definition positionOf :: "string \<Rightarrow> (jsnum \<times> jsnum) option" where
  "positionOf line =
     (if includes_str line ''POSITION-''
           \<and> (includes_str line ''N)'' \<or> includes_str line ''S)'')
           \<and> (includes_str line ''W)'' \<or> includes_str line ''E)'') then
        (case str_match line coordRegex of Some caps \<Rightarrow> convertCaptures caps | None \<Rightarrow> None)
      else None)"

definition parseCoordinates :: "string \<Rightarrow> benchmark \<Rightarrow> benchmark" where
  "parseCoordinates line b =
     (case positionOf line of
        None \<Rightarrow> b
      | Some (lat, lon) \<Rightarrow> b\<lparr>latitude := Some lat, longitude := Some lon\<rparr>)"

text \<open>\<open>// Parse elevation\<close>\<close>

definition elevationOf :: "string \<Rightarrow> jsnum option" where
  "elevationOf line =
     (if includes_str line ''ELLIP HT-'' \<or> includes_str line ''ORTHO HEIGHT'' then
        (case str_match line elevRegex of Some [elev] \<Rightarrow> Some (parseFloat elev) | _ \<Rightarrow> None)
      else None)"

definition parseElevation :: "string \<Rightarrow> benchmark \<Rightarrow> benchmark" where
  "parseElevation line b =
     (case elevationOf line of None \<Rightarrow> b | Some v \<Rightarrow> b\<lparr>elevation := Some v\<rparr>)"

text \<open>\<open>// Parse designation for name\<close>\<close>

definition designationOf :: "string \<Rightarrow> string option" where
  "designationOf line =
     (if includes_str line ''DESIGNATION'' \<and> includes_str line ''-'' then
        (case str_match line nameRegex of Some [nm] \<Rightarrow> Some (trim nm) | _ \<Rightarrow> None)
      else None)"

definition parseDesignation :: "string \<Rightarrow> benchmark \<Rightarrow> benchmark" where
  "parseDesignation line b =
     (case designationOf line of None \<Rightarrow> b | Some nm \<Rightarrow> b\<lparr>name_fld := Some nm\<rparr>)"

text \<open>\<open>// Determine type based on content\<close>: the \<open>if\<close> / \<open>else if\<close> chain.\<close>

definition typeOf :: "string \<Rightarrow> string option" where
  "typeOf line =
     (if includes_str line ''PACS'' then Some ''Primary Airport Control''
      else if includes_str line ''CORS'' then Some ''CORS Station''
      else if includes_str line ''TRIANGULATION'' then Some ''Triangulation Station''
      else if includes_str line ''VERTICAL'' then Some ''Vertical Control''
      else None)"

definition determineType :: "string \<Rightarrow> benchmark \<Rightarrow> benchmark" where
  "determineType line b = (case typeOf line of None \<Rightarrow> b | Some t \<Rightarrow> b\<lparr>type_fld := t\<rparr>)"

text \<open>The body of \<open>if (currentBenchmark) { ... }\<close>, the five rules in the order of the
  source.\<close>

definition extractFields :: "string \<Rightarrow> benchmark \<Rightarrow> benchmark" where
  "extractFields line b =
     determineType line (parseDesignation line (parseElevation line
       (parseCoordinates line (parsePID line b))))"

subsection \<open>The line loop\<close>

text \<open>\<open>path.basename\<close> (POSIX): the part after the last slash, trailing slashes dropped.\<close>

definition basename :: "string \<Rightarrow> string" where
  "basename p =
     rev (takeWhile (\<lambda>c. c \<noteq> CHR ''/'') (dropWhile (\<lambda>c. c = CHR ''/'') (rev p)))"

text \<open>The two assignments before \<open>this.benchmarks.push(currentBenchmark)\<close>.\<close>

definition saveBenchmark :: "string \<Rightarrow> string \<Rightarrow> benchmark \<Rightarrow> benchmark" where
  "saveBenchmark filePath stateCode b =
     b\<lparr>description :=
          (if truthyStr (description b) then description b
           else Some (''NGS '' @ type_fld b @ '' control point in '' @ stateCode)),
       datasheet_url := Some (''/data/datasheets/'' @ stateCode @ ''/'' @ basename filePath)\<rparr>"

definition maxBenchmarks :: nat where
  "maxBenchmarks = 1000"

text \<open>
  The variables of \<open>parseDatasheetFile\<close> and the collection \<open>this.benchmarks\<close>. The
  collection holds references; the only object that is written after it was pushed is the
  one that is pushed twice (see \<open>flush\<close>), and that write stores the values the object
  already has, so the collection is a list of values here.
\<close>

record pstate =
  currentBenchmark :: "benchmark option"
  lineCount :: nat
  benchmarkCount :: nat
  benchmarks :: "benchmark list"

datatype ctl = Continue | Break

definition boundaryMarker :: string where
  "boundaryMarker = ''National Geodetic Survey, Retrieval Date''"

definition isBoundary :: "string \<Rightarrow> bool" where
  "isBoundary line = includes_str line boundaryMarker"

text \<open>The block \<open>if (line.includes('National Geodetic Survey, Retrieval Date')) { ... }\<close>.\<close>

definition startNew :: "string \<Rightarrow> string \<Rightarrow> pstate \<Rightarrow> ctl \<times> pstate" where
  "startNew filePath stateCode s =
     (let fresh = (\<lambda>t. (Continue, t\<lparr>currentBenchmark := Some (newBenchmark stateCode)\<rparr>))
      in case currentBenchmark s of
           None \<Rightarrow> fresh s
         | Some b \<Rightarrow>
             if hasValidData b then
               (let b' = saveBenchmark filePath stateCode b;
                    s' = s\<lparr>currentBenchmark := Some b',
                           benchmarks := benchmarks s @ [b'],
                           benchmarkCount := benchmarkCount s + 1\<rparr>
                in if benchmarkCount s' \<ge> maxBenchmarks then (Break, s') else fresh s')
             else fresh s)"

text \<open>One iteration of \<open>for await (const line of rl)\<close>.\<close>

definition lineStep :: "string \<Rightarrow> string \<Rightarrow> string \<Rightarrow> pstate \<Rightarrow> ctl \<times> pstate" where
  "lineStep filePath stateCode line s =
     (let s1 = s\<lparr>lineCount := lineCount s + 1\<rparr>;
          (c, s2) = (if isBoundary line then startNew filePath stateCode s1
                     else (Continue, s1))
      in case c of
           Break \<Rightarrow> (Break, s2)
         | Continue \<Rightarrow>
             (case currentBenchmark s2 of
                None \<Rightarrow> (Continue, s2)
              | Some b \<Rightarrow> (Continue, s2\<lparr>currentBenchmark := Some (extractFields line b)\<rparr>)))"

fun forLines :: "string \<Rightarrow> string \<Rightarrow> string list \<Rightarrow> pstate \<Rightarrow> ctl \<times> pstate" where
  "forLines filePath stateCode [] s = (Continue, s)"
| "forLines filePath stateCode (line # rest) s =
     (case lineStep filePath stateCode line s of
        (Break, s') \<Rightarrow> (Break, s')
      | (Continue, s') \<Rightarrow> forLines filePath stateCode rest s')"

text \<open>\<open>// Don't forget the last benchmark\<close>: the block after the loop.\<close>

definition flush :: "string \<Rightarrow> string \<Rightarrow> pstate \<Rightarrow> pstate" where
  "flush filePath stateCode s =
     (case currentBenchmark s of
        None \<Rightarrow> s
      | Some b \<Rightarrow>
          if hasValidData b then
            (let b' = saveBenchmark filePath stateCode b
             in s\<lparr>currentBenchmark := Some b',
                  benchmarks := benchmarks s @ [b'],
                  benchmarkCount := benchmarkCount s + 1\<rparr>)
          else s)"

definition initState :: "benchmark list \<Rightarrow> pstate" where
  "initState bs = \<lparr>currentBenchmark = None, lineCount = 0, benchmarkCount = 0, benchmarks = bs\<rparr>"

text \<open>
  \<open>parseDatasheetFile(filePath, stateCode)\<close> on a file whose lines are \<open>lines\<close>, with
  \<open>this.benchmarks = bs\<close> at the call: the returned count and the collection afterwards.
\<close>

definition parseDatasheetFile ::
  "string \<Rightarrow> string \<Rightarrow> string list \<Rightarrow> benchmark list \<Rightarrow> nat \<times> benchmark list" where
  "parseDatasheetFile filePath stateCode lines bs =
     (let s = flush filePath stateCode (snd (forLines filePath stateCode lines (initState bs)))
      in (benchmarkCount s, benchmarks s))"

subsection \<open>Notions used in the statements\<close>

text \<open>The value of the last line of \<open>ls\<close> on which a rule fires (\<open>f\<close> is one of
  \<open>pidOf\<close>, \<open>positionOf\<close>, \<open>elevationOf\<close>, \<open>designationOf\<close>, \<open>typeOf\<close>).\<close>

fun lastMatch :: "(string \<Rightarrow> 'a option) \<Rightarrow> string list \<Rightarrow> 'a option" where
  "lastMatch f [] = None"
| "lastMatch f (l # ls) = (case lastMatch f ls of Some v \<Rightarrow> Some v | None \<Rightarrow> f l)"

text \<open>
  The records a file yields when no limit stops the loop: the reference the limit of
  \<open>maxBenchmarks\<close> is compared with. \<open>emitted\<close> is what a finalisation (boundary line or
  end of input) appends for the open record \<open>cur\<close>.
\<close>

definition emitted :: "string \<Rightarrow> string \<Rightarrow> benchmark option \<Rightarrow> benchmark list" where
  "emitted filePath stateCode cur =
     (case cur of
        None \<Rightarrow> []
      | Some b \<Rightarrow> if hasValidData b then [saveBenchmark filePath stateCode b] else [])"

fun unlimited :: "string \<Rightarrow> string \<Rightarrow> string list \<Rightarrow> benchmark option \<Rightarrow> benchmark list" where
  "unlimited filePath stateCode [] cur = emitted filePath stateCode cur"
| "unlimited filePath stateCode (line # rest) cur =
     (if isBoundary line then
        emitted filePath stateCode cur
          @ unlimited filePath stateCode rest (Some (extractFields line (newBenchmark stateCode)))
      else unlimited filePath stateCode rest (map_option (extractFields line) cur))"

text \<open>Sample lines and files for the concrete statements.\<close>

definition sampleBoundary :: string where
  "sampleBoundary = '' 1        National Geodetic Survey, Retrieval Date = JULY 14, 2025''"

definition samplePath :: string where
  "samplePath = ''data/datasheets/AK/AK.txt''"

definition samplePid :: string where
  "samplePid = '' AB1234  PID         -  AB1234''"

definition samplePosition :: string where
  "samplePosition = ''NAD 83(2011) POSITION- 45 30 0.00(N) 122 30 0.00(W)   ADJUSTED''"

definition sampleBlock :: "string list" where
  "sampleBlock = [sampleBoundary, samplePid, samplePosition]"

definition sampleRecord :: benchmark where
  "sampleRecord =
     \<lparr>id_fld = Some ''AB1234'', name_fld = None, type_fld = ''Control Point'',
      latitude = Some (Val (455 / 10)), longitude = Some (Val (- (1225 / 10))),
      elevation = None, state_fld = ''AK'', description = None, datasheet_url = None\<rparr>"

definition sampleSaved :: benchmark where
  "sampleSaved =
     sampleRecord\<lparr>description := Some ''NGS Control Point control point in AK'',
                  datasheet_url := Some ''/data/datasheets/AK/AK.txt''\<rparr>"

definition zeroPosition :: string where
  "zeroPosition = ''NAD 83(2011) POSITION- 00 00 00.00(N) 075 00 00.00(W)   ADJUSTED''"

definition nanPosition :: string where
  "nanPosition = ''NAD 83(2011) POSITION- 40 00 .(N) 075 00 00.00(W)   ADJUSTED''"

definition otherPid :: string where
  "otherPid = '' ZZ9999  PID         -  ZZ9999''"

section \<open>Properties\<close>

subsection \<open>What one line does to the open record\<close>


lemma position_extractFields:
  "(latitude (extractFields line b), longitude (extractFields line b)) =
     (case positionOf line of None \<Rightarrow> (latitude b, longitude b)
      | Some (la, lo) \<Rightarrow> (Some la, Some lo))"
  by (simp add: extractFields_def parseElevation_def parseCoordinates_def
      determineType_def parseDesignation_def parsePID_def
      split: option.splits)


lemma id_extractFields:
  "id_fld (extractFields line b) = (case pidOf line of None \<Rightarrow> id_fld b | Some p \<Rightarrow> Some p)"
  by (simp add: extractFields_def parseElevation_def parseCoordinates_def
      determineType_def parseDesignation_def parsePID_def
      split: option.splits)

lemma name_extractFields:
  "name_fld (extractFields line b) =
     (case designationOf line of None \<Rightarrow> name_fld b | Some n \<Rightarrow> Some n)"
  by (simp add: extractFields_def parseElevation_def parseCoordinates_def
      determineType_def parseDesignation_def parsePID_def
      split: option.splits)

lemma untouched_extractFields:
  "state_fld (extractFields line b) = state_fld b"
  "description (extractFields line b) = description b"
  "datasheet_url (extractFields line b) = datasheet_url b"
  by (simp_all add: extractFields_def parseElevation_def parseCoordinates_def
      determineType_def parseDesignation_def parsePID_def
      split: option.splits)

lemma extractFields_no_rule:
  assumes "pidOf line = None" "positionOf line = None" "elevationOf line = None"
    "designationOf line = None" "typeOf line = None"
  shows "extractFields line b = b"
  using assms
  by (simp add: extractFields_def parseElevation_def parseCoordinates_def
      determineType_def parseDesignation_def parsePID_def)

subsection \<open>What a block of lines does to the open record\<close>

lemma lastMatch_append:
  "lastMatch f (xs @ ys) = (case lastMatch f ys of Some v \<Rightarrow> Some v | None \<Rightarrow> lastMatch f xs)"
  by (induction xs) (simp_all split: option.splits)

lemma lastMatch_none:
  "\<forall>p \<in> set ps. f p = None \<Longrightarrow> lastMatch f ps = None"
  by (induction ps) simp_all

lemma lastMatch_decided:
  assumes "f l = Some v" "\<forall>p \<in> set post. f p = None"
  shows "lastMatch f (pre @ l # post) = Some v"
  using assms lastMatch_none [of post f] by (simp add: lastMatch_append)


lemma position_fold:
  "(latitude (fold extractFields ls b), longitude (fold extractFields ls b)) =
     (case lastMatch positionOf ls of None \<Rightarrow> (latitude b, longitude b)
      | Some (la, lo) \<Rightarrow> (Some la, Some lo))"
proof (induction ls arbitrary: b)
  case Nil
  show ?case by simp
next
  case (Cons l ls)
  show ?case
    using Cons.IH [of "extractFields l b"] position_extractFields [of l b]
    by (simp split: option.splits prod.splits)
qed


subsection \<open>Steps of the loop\<close>

lemma lineStep_inner:
  assumes "\<not> isBoundary line" "currentBenchmark s = Some b"
  shows "lineStep fp sc line s =
           (Continue, s\<lparr>lineCount := lineCount s + 1,
                        currentBenchmark := Some (extractFields line b)\<rparr>)"
  using assms by (simp add: lineStep_def Let_def)

lemma lineStep_idle:
  assumes "\<not> isBoundary line" "currentBenchmark s = None"
  shows "lineStep fp sc line s = (Continue, s\<lparr>lineCount := lineCount s + 1\<rparr>)"
  using assms by (simp add: lineStep_def Let_def)

lemma forLines_block:
  assumes "\<forall>l \<in> set ls. \<not> isBoundary l" "currentBenchmark s = Some b"
  shows "forLines fp sc ls s =
           (Continue, s\<lparr>lineCount := lineCount s + length ls,
                        currentBenchmark := Some (fold extractFields ls b)\<rparr>)"
  using assms
proof (induction ls arbitrary: s b)
  case Nil
  then show ?case by simp
next
  case (Cons l ls)
  have nb: "\<not> isBoundary l" using Cons.prems(1) by simp
  let ?s1 = "s\<lparr>lineCount := lineCount s + 1, currentBenchmark := Some (extractFields l b)\<rparr>"
  have step: "lineStep fp sc l s = (Continue, ?s1)"
    by (rule lineStep_inner [OF nb Cons.prems(2)])
  have "forLines fp sc ls ?s1 =
          (Continue, ?s1\<lparr>lineCount := lineCount ?s1 + length ls,
                          currentBenchmark := Some (fold extractFields ls (extractFields l b))\<rparr>)"
    using Cons.prems(1) by (intro Cons.IH) simp_all
  then show ?case using step by simp
qed

lemma forLines_append:
  "forLines fp sc (xs @ ys) s =
     (case forLines fp sc xs s of
        (Break, s') \<Rightarrow> (Break, s')
      | (Continue, s') \<Rightarrow> forLines fp sc ys s')"
  by (induction xs arbitrary: s) (simp_all split: prod.splits ctl.splits)

lemma hasValidData_saveBenchmark:
  "hasValidData (saveBenchmark fp sc b) = hasValidData b"
  by (simp add: hasValidData_def saveBenchmark_def)

lemma saveBenchmark_idem:
  "saveBenchmark fp sc (saveBenchmark fp sc b) = saveBenchmark fp sc b"
  by (simp add: saveBenchmark_def)

lemma lineStep_boundary_invalid:
  assumes "isBoundary line"
    "currentBenchmark s = None \<or> (\<exists>b. currentBenchmark s = Some b \<and> \<not> hasValidData b)"
  shows "lineStep fp sc line s =
           (Continue, s\<lparr>lineCount := lineCount s + 1,
                        currentBenchmark := Some (extractFields line (newBenchmark sc))\<rparr>)"
  using assms by (auto simp add: lineStep_def startNew_def Let_def)

lemma lineStep_boundary_valid:
  assumes "isBoundary line" "currentBenchmark s = Some b" "hasValidData b"
    "benchmarkCount s + 1 < maxBenchmarks"
  shows "lineStep fp sc line s =
           (Continue, s\<lparr>lineCount := lineCount s + 1,
                        currentBenchmark := Some (extractFields line (newBenchmark sc)),
                        benchmarks := benchmarks s @ [saveBenchmark fp sc b],
                        benchmarkCount := benchmarkCount s + 1\<rparr>)"
  using assms by (simp add: lineStep_def startNew_def Let_def)

lemma lineStep_boundary_cap:
  assumes "isBoundary line" "currentBenchmark s = Some b" "hasValidData b"
    "maxBenchmarks \<le> benchmarkCount s + 1"
  shows "lineStep fp sc line s =
           (Break, s\<lparr>lineCount := lineCount s + 1,
                     currentBenchmark := Some (saveBenchmark fp sc b),
                     benchmarks := benchmarks s @ [saveBenchmark fp sc b],
                     benchmarkCount := benchmarkCount s + 1\<rparr>)"
  using assms by (simp add: lineStep_def startNew_def Let_def)

subsection \<open>Position lines\<close>

text \<open>
  Claim C3 says that the first matching position line of a record decides the coordinates
  and that a later one leaves them unchanged. The position rule assigns on every match,
  so on the file below, whose first position line matches with \<open>(40, -75)\<close>, the record
  ends with the coordinates of the second one.
\<close>

theorem position_first_match_counterexample:
  "positionOf ''NAD 83(2011) POSITION- 40 00 00.00(N) 075 00 00.00(W)   ADJUSTED''
     = Some (Val 40, Val (- 75))
   \<and> map (\<lambda>b. (latitude b, longitude b)) (snd (parseDatasheetFile samplePath ''AK''
        [sampleBoundary, '' AB1234  PID         -  AB1234'',
         ''NAD 83(2011) POSITION- 40 00 00.00(N) 075 00 00.00(W)   ADJUSTED'',
         ''NAD 83(1986) POSITION- 41 00 00.00(N) 076 00 00.00(W)   ADJUSTED''] []))
     = [(Some (Val 41), Some (Val (- 76)))]"
  by code_simp

text \<open>
  Claim C3, as the code has it: within the block of an open record every position line
  whose pattern matches overwrites latitude and longitude, so the coordinates are those of
  the last matching position line of the block (\<open>l\<close>, after which no position line
  matches), whatever the lines before it set.
\<close>

theorem position_last_match_wins:
  assumes "currentBenchmark s = Some b"
    and "\<forall>x \<in> set (pre @ l # post). \<not> isBoundary x"
    and "positionOf l = Some (lat, lon)"
    and "\<forall>p \<in> set post. positionOf p = None"
  shows "map_option (\<lambda>r. (latitude r, longitude r))
           (currentBenchmark (snd (forLines fp sc (pre @ l # post) s)))
         = Some (Some lat, Some lon)"
proof -
  have "(latitude (fold extractFields (pre @ l # post) b),
         longitude (fold extractFields (pre @ l # post) b)) = (Some lat, Some lon)"
    using lastMatch_decided [OF assms(3) assms(4), of pre]
    by (simp only: position_fold option.case prod.case)
  then show ?thesis
    by (simp add: forLines_block [OF assms(2) assms(1)])
qed

theorem position_last_match_wins_witness:
  "map_option (\<lambda>r. (latitude r, longitude r))
     (currentBenchmark (snd (forLines samplePath ''AK''
        ([''NAD 83(2011) POSITION- 40 00 00.00(N) 075 00 00.00(W)   ADJUSTED''] @
          ''NAD 83(1986) POSITION- 41 00 00.00(N) 076 00 00.00(W)   ADJUSTED'' # [])
        \<lparr>currentBenchmark = Some (newBenchmark ''AK''), lineCount = 1, benchmarkCount = 0,
          benchmarks = []\<rparr>)))
   = Some (Some (Val 41), Some (Val (- 76)))"
proof -
  have h1: "currentBenchmark \<lparr>currentBenchmark = Some (newBenchmark ''AK''), lineCount = 1,
      benchmarkCount = 0, benchmarks = []\<rparr> = Some (newBenchmark ''AK'')"
    by simp
  have h2: "\<forall>x \<in> set ([''NAD 83(2011) POSITION- 40 00 00.00(N) 075 00 00.00(W)   ADJUSTED''] @
          ''NAD 83(1986) POSITION- 41 00 00.00(N) 076 00 00.00(W)   ADJUSTED'' # []).
        \<not> isBoundary x"
    by code_simp
  have h3: "positionOf ''NAD 83(1986) POSITION- 41 00 00.00(N) 076 00 00.00(W)   ADJUSTED''
      = Some (Val 41, Val (- 76))"
    by code_simp
  have h4: "\<forall>p \<in> set []. positionOf p = None"
    by simp
  show ?thesis
    using position_last_match_wins [OF h1 h2 h3 h4, of samplePath "''AK''"] by simp
qed

subsection \<open>Type keywords\<close>




subsection \<open>Boundary lines\<close>

text \<open>
  Claim C6 says that the boundary line is not passed to the field extraction. The block
  \<open>if (currentBenchmark) { ... }\<close> is not an \<open>else\<close> branch of the boundary test, so it
  runs on the boundary line too: a boundary line that also carries a \<open>PID\<close> tag leaves
  the fresh record with an id.
\<close>

theorem boundary_line_extracted_counterexample:
  "isBoundary '' 1  National Geodetic Survey, Retrieval Date = JULY 14, 2025  PID - AB1234''
   \<and> map_option id_fld (currentBenchmark (snd (lineStep samplePath ''AK''
        '' 1  National Geodetic Survey, Retrieval Date = JULY 14, 2025  PID - AB1234''
        (initState [])))) = Some (Some ''AB1234'')"
  by code_simp

text \<open>
  Claim C6, as the code has it: a boundary line after which the loop goes on appends what
  the finalisation of the previous record emits, installs the fresh record (everything
  \<open>null\<close> but \<open>state\<close>, the region code, and \<open>type\<close>, \<open>Control Point\<close>) and then
  applies the field extraction to the boundary line itself; the open record is the fresh
  one exactly as installed when no rule fires on the boundary line.
\<close>

theorem boundary_line_step:
  assumes "isBoundary line" and "lineStep fp sc line s = (Continue, s')"
  shows "currentBenchmark s' = Some (extractFields line (newBenchmark sc))
    \<and> benchmarks s' = benchmarks s @ emitted fp sc (currentBenchmark s)
    \<and> (pidOf line = None \<and> positionOf line = None \<and> elevationOf line = None
           \<and> designationOf line = None \<and> typeOf line = None
        \<longrightarrow> currentBenchmark s' =
          Some \<lparr>id_fld = None, name_fld = None, type_fld = ''Control Point'',
                latitude = None, longitude = None, elevation = None,
                state_fld = sc, description = None, datasheet_url = None\<rparr>)"
proof -
  have cur: "currentBenchmark s' = Some (extractFields line (newBenchmark sc))"
    using assms
    by (auto simp add: lineStep_def startNew_def Let_def split: option.splits if_splits)
  have out: "benchmarks s' = benchmarks s @ emitted fp sc (currentBenchmark s)"
    using assms
    by (auto simp add: lineStep_def startNew_def emitted_def Let_def
        split: option.splits if_splits)
  show ?thesis
    using cur out extractFields_no_rule [of line "newBenchmark sc"]
    by (simp add: newBenchmark_def)
qed

theorem boundary_line_step_witness:
  "currentBenchmark (snd (lineStep samplePath ''AK'' sampleBoundary (initState [])))
     = Some \<lparr>id_fld = None, name_fld = None, type_fld = ''Control Point'',
              latitude = None, longitude = None, elevation = None,
              state_fld = ''AK'', description = None, datasheet_url = None\<rparr>"
proof -
  have h1: "isBoundary sampleBoundary" by code_simp
  have h2: "lineStep samplePath ''AK'' sampleBoundary (initState []) =
     (Continue, snd (lineStep samplePath ''AK'' sampleBoundary (initState [])))"
    by code_simp
  have h3: "pidOf sampleBoundary = None \<and> positionOf sampleBoundary = None
     \<and> elevationOf sampleBoundary = None \<and> designationOf sampleBoundary = None
     \<and> typeOf sampleBoundary = None"
    by code_simp
  show ?thesis
    using boundary_line_step [OF h1 h2] h3 by blast
qed

subsection \<open>Elevation lines\<close>



subsection \<open>Finalisation\<close>

lemma truthyNum_iff: "truthyNum v \<longleftrightarrow> (\<exists>q. v = Some (Val q) \<and> q \<noteq> 0)"
  by (cases v rule: truthyNum.cases) simp_all

lemma truthyStr_iff: "truthyStr v \<longleftrightarrow> (\<exists>i. v = Some i \<and> i \<noteq> [])"
  by (cases v) simp_all

lemma saveBenchmark_fields:
  "id_fld (saveBenchmark fp sc b) = id_fld b"
  "latitude (saveBenchmark fp sc b) = latitude b"
  "longitude (saveBenchmark fp sc b) = longitude b"
  by (simp_all add: saveBenchmark_def)

lemma emitted_valid:
  "x \<in> set (emitted fp sc cur) \<Longrightarrow> hasValidData x \<and> saveBenchmark fp sc x = x"
  by (auto simp add: emitted_def hasValidData_saveBenchmark saveBenchmark_idem
      split: option.splits if_splits)

lemma flush_benchmarks:
  "benchmarks (flush fp sc s) = benchmarks s @ emitted fp sc (currentBenchmark s)"
  by (simp add: flush_def emitted_def Let_def split: option.splits)

lemma flush_count:
  "benchmarkCount (flush fp sc s) = benchmarkCount s + length (emitted fp sc (currentBenchmark s))"
  by (simp add: flush_def emitted_def Let_def split: option.splits)

lemma lineStep_benchmarks:
  "benchmarks (snd (lineStep fp sc line s)) =
     benchmarks s @ (if isBoundary line then emitted fp sc (currentBenchmark s) else [])"
  by (simp add: lineStep_def startNew_def emitted_def Let_def split: option.splits)

lemma lineStep_cases:
  obtains
    (inner) "\<not> isBoundary line"
      "lineStep fp sc line s =
         (Continue, s\<lparr>lineCount := lineCount s + 1,
                      currentBenchmark := map_option (extractFields line) (currentBenchmark s)\<rparr>)"
  | (skip) "isBoundary line" "emitted fp sc (currentBenchmark s) = []"
      "lineStep fp sc line s =
         (Continue, s\<lparr>lineCount := lineCount s + 1,
                      currentBenchmark := Some (extractFields line (newBenchmark sc))\<rparr>)"
  | (push) b where "isBoundary line" "currentBenchmark s = Some b" "hasValidData b"
      "emitted fp sc (currentBenchmark s) = [saveBenchmark fp sc b]"
      "benchmarkCount s + 1 < maxBenchmarks"
      "lineStep fp sc line s =
         (Continue, s\<lparr>lineCount := lineCount s + 1,
                      currentBenchmark := Some (extractFields line (newBenchmark sc)),
                      benchmarks := benchmarks s @ [saveBenchmark fp sc b],
                      benchmarkCount := benchmarkCount s + 1\<rparr>)"
  | (stop) b where "isBoundary line" "currentBenchmark s = Some b" "hasValidData b"
      "emitted fp sc (currentBenchmark s) = [saveBenchmark fp sc b]"
      "maxBenchmarks \<le> benchmarkCount s + 1"
      "lineStep fp sc line s =
         (Break, s\<lparr>lineCount := lineCount s + 1,
                   currentBenchmark := Some (saveBenchmark fp sc b),
                   benchmarks := benchmarks s @ [saveBenchmark fp sc b],
                   benchmarkCount := benchmarkCount s + 1\<rparr>)"
proof (cases "isBoundary line")
  case False
  show ?thesis
  proof (cases "currentBenchmark s")
    case None
    then show ?thesis using inner [OF False] lineStep_idle [OF False None] by simp
  next
    case (Some b)
    then show ?thesis using inner [OF False] lineStep_inner [OF False Some] by simp
  qed
next
  case True
  show ?thesis
  proof (cases "currentBenchmark s")
    case None
    then show ?thesis
      using skip [OF True] lineStep_boundary_invalid [OF True, of s] by (simp add: emitted_def)
  next
    case (Some b)
    show ?thesis
    proof (cases "hasValidData b")
      case False
      then show ?thesis
        using skip [OF True] lineStep_boundary_invalid [OF True, of s] Some
        by (simp add: emitted_def)
    next
      case v: True
      have e: "emitted fp sc (currentBenchmark s) = [saveBenchmark fp sc b]"
        using Some v by (simp add: emitted_def)
      show ?thesis
      proof (cases "benchmarkCount s + 1 < maxBenchmarks")
        case True
        show ?thesis
          by (rule push [OF \<open>isBoundary line\<close> Some v e True
                lineStep_boundary_valid [OF \<open>isBoundary line\<close> Some v True]])
      next
        case False
        then have c: "maxBenchmarks \<le> benchmarkCount s + 1" by simp
        show ?thesis
          by (rule stop [OF \<open>isBoundary line\<close> Some v e c
                lineStep_boundary_cap [OF \<open>isBoundary line\<close> Some v c]])
      qed
    qed
  qed
qed

lemma unlimited_valid:
  "x \<in> set (unlimited fp sc ls cur) \<Longrightarrow> hasValidData x \<and> saveBenchmark fp sc x = x"
  by (induction ls arbitrary: cur) (auto dest: emitted_valid split: if_splits)

subsection \<open>The loop against the unlimited reference\<close>

lemma forLines_continue_benchmarks:
  "forLines fp sc ls s = (Continue, s') \<Longrightarrow>
     benchmarks s' @ emitted fp sc (currentBenchmark s') =
       benchmarks s @ unlimited fp sc ls (currentBenchmark s)"
proof (induction ls arbitrary: s)
  case Nil
  then show ?case by simp
next
  case (Cons l ls)
  show ?case
  proof (cases rule: lineStep_cases [where line = l and s = s and fp = fp and sc = sc])
    case inner
    then show ?thesis using Cons.prems Cons.IH by simp
  next
    case skip
    then show ?thesis using Cons.prems Cons.IH by simp
  next
    case (push b)
    then show ?thesis using Cons.prems Cons.IH by simp
  next
    case (stop b)
    then show ?thesis using Cons.prems by simp
  qed
qed

lemma forLines_continue_count:
  "forLines fp sc ls s = (Continue, s') \<Longrightarrow>
     benchmarkCount s' + length (emitted fp sc (currentBenchmark s')) =
       benchmarkCount s + length (unlimited fp sc ls (currentBenchmark s))"
proof (induction ls arbitrary: s)
  case Nil
  then show ?case by simp
next
  case (Cons l ls)
  show ?case
  proof (cases rule: lineStep_cases [where line = l and s = s and fp = fp and sc = sc])
    case inner
    then show ?thesis using Cons.prems Cons.IH by simp
  next
    case skip
    then show ?thesis using Cons.prems Cons.IH by simp
  next
    case (push b)
    then show ?thesis using Cons.prems Cons.IH by simp
  next
    case (stop b)
    then show ?thesis using Cons.prems by simp
  qed
qed

lemma forLines_continue_below:
  "forLines fp sc ls s = (Continue, s') \<Longrightarrow> benchmarkCount s < maxBenchmarks \<Longrightarrow>
     benchmarkCount s' < maxBenchmarks"
proof (induction ls arbitrary: s)
  case Nil
  then show ?case by simp
next
  case (Cons l ls)
  show ?case
  proof (cases rule: lineStep_cases [where line = l and s = s and fp = fp and sc = sc])
    case inner
    then show ?thesis using Cons.prems Cons.IH by simp
  next
    case skip
    then show ?thesis using Cons.prems Cons.IH by simp
  next
    case (push b)
    then show ?thesis using Cons.prems Cons.IH by simp
  next
    case (stop b)
    then show ?thesis using Cons.prems by simp
  qed
qed

lemma forLines_continue_lineCount:
  "forLines fp sc ls s = (Continue, s') \<Longrightarrow> lineCount s' = lineCount s + length ls"
proof (induction ls arbitrary: s)
  case Nil
  then show ?case by simp
next
  case (Cons l ls)
  show ?case
  proof (cases rule: lineStep_cases [where line = l and s = s and fp = fp and sc = sc])
    case inner
    then show ?thesis using Cons.prems Cons.IH by force
  next
    case skip
    then show ?thesis using Cons.prems Cons.IH by force
  next
    case (push b)
    then show ?thesis using Cons.prems Cons.IH by force
  next
    case (stop b)
    then show ?thesis using Cons.prems by simp
  qed
qed

lemma forLines_break:
  "forLines fp sc ls s = (Break, s') \<Longrightarrow> benchmarkCount s < maxBenchmarks \<Longrightarrow>
     maxBenchmarks - benchmarkCount s \<le> length (unlimited fp sc ls (currentBenchmark s))
     \<and> benchmarks s' =
         benchmarks s @ take (maxBenchmarks - benchmarkCount s)
                          (unlimited fp sc ls (currentBenchmark s))
     \<and> benchmarkCount s' = maxBenchmarks
     \<and> currentBenchmark s' =
         Some (unlimited fp sc ls (currentBenchmark s) ! (maxBenchmarks - benchmarkCount s - 1))"
proof (induction ls arbitrary: s)
  case Nil
  then show ?case by simp
next
  case (Cons l ls)
  show ?case
  proof (cases rule: lineStep_cases [where line = l and s = s and fp = fp and sc = sc])
    case inner
    let ?s1 = "s\<lparr>lineCount := lineCount s + 1,
                  currentBenchmark := map_option (extractFields l) (currentBenchmark s)\<rparr>"
    have run: "forLines fp sc ls ?s1 = (Break, s')"
      using Cons.prems(1) inner(2) by simp
    have below: "benchmarkCount ?s1 < maxBenchmarks"
      using Cons.prems(2) by simp
    show ?thesis
      using Cons.IH [OF run below] inner(1) by simp
  next
    case skip
    let ?s1 = "s\<lparr>lineCount := lineCount s + 1,
                  currentBenchmark := Some (extractFields l (newBenchmark sc))\<rparr>"
    have run: "forLines fp sc ls ?s1 = (Break, s')"
      using Cons.prems(1) skip(3) by simp
    have below: "benchmarkCount ?s1 < maxBenchmarks"
      using Cons.prems(2) by simp
    show ?thesis
      using Cons.IH [OF run below] skip(1) skip(2) by simp
  next
    case (push b)
    let ?s1 = "s\<lparr>lineCount := lineCount s + 1,
                  currentBenchmark := Some (extractFields l (newBenchmark sc)),
                  benchmarks := benchmarks s @ [saveBenchmark fp sc b],
                  benchmarkCount := benchmarkCount s + 1\<rparr>"
    let ?u1 = "unlimited fp sc ls (Some (extractFields l (newBenchmark sc)))"
    let ?n1 = "maxBenchmarks - (benchmarkCount s + 1)"
    have run: "forLines fp sc ls ?s1 = (Break, s')"
      using Cons.prems(1) push(6) by simp
    have below: "benchmarkCount ?s1 < maxBenchmarks"
      using push(5) by simp
    have ih: "?n1 \<le> length ?u1
      \<and> benchmarks s' = (benchmarks s @ [saveBenchmark fp sc b]) @ take ?n1 ?u1
      \<and> benchmarkCount s' = maxBenchmarks
      \<and> currentBenchmark s' = Some (?u1 ! (?n1 - 1))"
      using Cons.IH [OF run below] by simp
    have u: "unlimited fp sc (l # ls) (currentBenchmark s) = saveBenchmark fp sc b # ?u1"
      using push(1) push(4) by simp
    have n: "maxBenchmarks - benchmarkCount s = Suc ?n1" "0 < ?n1"
      using push(5) by simp_all
    have idx: "maxBenchmarks - benchmarkCount s - 1 = Suc (?n1 - 1)"
      using n by simp
    show ?thesis
      unfolding u n(1) using ih idx n(2) by simp
  next
    case (stop b)
    have n: "maxBenchmarks - benchmarkCount s = Suc 0"
      using stop(5) Cons.prems(2) by simp
    have u: "unlimited fp sc (l # ls) (currentBenchmark s) =
               saveBenchmark fp sc b # unlimited fp sc ls (Some (extractFields l (newBenchmark sc)))"
      using stop(1) stop(4) by simp
    have s': "s' = s\<lparr>lineCount := lineCount s + 1,
                   currentBenchmark := Some (saveBenchmark fp sc b),
                   benchmarks := benchmarks s @ [saveBenchmark fp sc b],
                   benchmarkCount := benchmarkCount s + 1\<rparr>"
      using Cons.prems(1) stop(6) by simp
    show ?thesis
      unfolding u n using s' stop(5) Cons.prems(2) by simp
  qed
qed

lemma cap_run:
  assumes "forLines fp sc pre (initState bs) = (Continue, s)"
    and "currentBenchmark s = Some b" and "hasValidData b"
    and "benchmarkCount s + 1 = maxBenchmarks" and "isBoundary line"
  shows "forLines fp sc (pre @ line # rest) (initState bs) =
           (Break, s\<lparr>lineCount := lineCount s + 1,
                     currentBenchmark := Some (saveBenchmark fp sc b),
                     benchmarks := benchmarks s @ [saveBenchmark fp sc b],
                     benchmarkCount := benchmarkCount s + 1\<rparr>)"
    and "parseDatasheetFile fp sc (pre @ line # rest) bs =
           (maxBenchmarks + 1, benchmarks s @ [saveBenchmark fp sc b, saveBenchmark fp sc b])"
proof -
  have c: "maxBenchmarks \<le> benchmarkCount s + 1" using assms(4) by simp
  show run: "forLines fp sc (pre @ line # rest) (initState bs) =
           (Break, s\<lparr>lineCount := lineCount s + 1,
                     currentBenchmark := Some (saveBenchmark fp sc b),
                     benchmarks := benchmarks s @ [saveBenchmark fp sc b],
                     benchmarkCount := benchmarkCount s + 1\<rparr>)"
    by (simp add: forLines_append assms(1) lineStep_boundary_cap [OF assms(5) assms(2) assms(3) c])
  show "parseDatasheetFile fp sc (pre @ line # rest) bs =
           (maxBenchmarks + 1, benchmarks s @ [saveBenchmark fp sc b, saveBenchmark fp sc b])"
    using assms(3) assms(4)
    by (simp add: parseDatasheetFile_def run flush_def Let_def hasValidData_saveBenchmark
        saveBenchmark_idem)
qed

lemma parse_result:
  obtains new where
    "parseDatasheetFile fp sc ls bs = (length new, bs @ new)"
    "take maxBenchmarks new = take maxBenchmarks (unlimited fp sc ls None)"
    "set new \<subseteq> set (take maxBenchmarks (unlimited fp sc ls None))"
proof (cases "forLines fp sc ls (initState bs)")
  case (Pair c s')
  let ?u = "unlimited fp sc ls None"
  have init: "currentBenchmark (initState bs) = None" "benchmarkCount (initState bs) = 0"
    "benchmarks (initState bs) = bs" "benchmarkCount (initState bs) < maxBenchmarks"
    by (simp_all add: initState_def maxBenchmarks_def)
  show ?thesis
  proof (cases c)
    case Continue
    have run: "forLines fp sc ls (initState bs) = (Continue, s')"
      using Pair Continue by simp
    have out: "benchmarks (flush fp sc s') = bs @ ?u"
      using forLines_continue_benchmarks [OF run] by (simp add: flush_benchmarks init)
    have cnt: "benchmarkCount (flush fp sc s') = length ?u"
      using forLines_continue_count [OF run] by (simp add: flush_count init)
    have "benchmarkCount s' < maxBenchmarks"
      by (rule forLines_continue_below [OF run init(4)])
    moreover have "length (emitted fp sc (currentBenchmark s')) \<le> 1"
      by (simp add: emitted_def split: option.splits)
    ultimately have len: "length ?u \<le> maxBenchmarks"
      using forLines_continue_count [OF run] by (simp add: init)
    show ?thesis
    proof (rule that [of ?u])
      show "parseDatasheetFile fp sc ls bs = (length ?u, bs @ ?u)"
        by (simp add: parseDatasheetFile_def run out cnt Let_def)
      show "take maxBenchmarks ?u = take maxBenchmarks ?u" by simp
      show "set ?u \<subseteq> set (take maxBenchmarks ?u)" using len by simp
    qed
  next
    case Break
    have run: "forLines fp sc ls (initState bs) = (Break, s')"
      using Pair Break by simp
    let ?t = "take maxBenchmarks ?u"
    let ?x = "?u ! (maxBenchmarks - 1)"
    have br: "maxBenchmarks \<le> length ?u" "benchmarks s' = bs @ ?t"
      "benchmarkCount s' = maxBenchmarks" "currentBenchmark s' = Some ?x"
      using forLines_break [OF run init(4)] by (simp_all add: init)
    have pos: "0 < maxBenchmarks" by (simp add: maxBenchmarks_def)
    have lt: "length ?t = maxBenchmarks" using br(1) by simp
    have "?t ! (maxBenchmarks - 1) = ?x"
      using pos by (intro nth_take) simp
    moreover have "?t ! (maxBenchmarks - 1) \<in> set ?t"
      using pos lt by (intro nth_mem) simp
    ultimately have mem: "?x \<in> set ?t" by simp
    then have xin: "?x \<in> set ?u" by (rule in_set_takeD)
    have valid: "hasValidData ?x" "saveBenchmark fp sc ?x = ?x"
      using unlimited_valid [OF xin] by simp_all
    show ?thesis
    proof (rule that [of "?t @ [?x]"])
      show "parseDatasheetFile fp sc ls bs = (length (?t @ [?x]), bs @ ?t @ [?x])"
        using br valid lt
        by (simp add: parseDatasheetFile_def run flush_def Let_def)
      show "take maxBenchmarks (?t @ [?x]) = take maxBenchmarks ?u"
        using lt by simp
      show "set (?t @ [?x]) \<subseteq> set ?t" using mem by simp
    qed
  qed
qed

subsection \<open>The sample file\<close>

lemma sample_isBoundary: "isBoundary sampleBoundary"
  by code_simp

lemma sample_inner: "\<forall>l \<in> set [samplePid, samplePosition]. \<not> isBoundary l"
  by code_simp

lemma sample_fold:
  "fold extractFields [samplePid, samplePosition]
     (extractFields sampleBoundary (newBenchmark ''AK'')) = sampleRecord"
  by code_simp

lemma sample_valid: "hasValidData sampleRecord"
  by code_simp

lemma sample_saved: "saveBenchmark samplePath ''AK'' sampleRecord = sampleSaved"
  by code_simp

lemma forLines_sampleBlock_first:
  "forLines samplePath ''AK'' sampleBlock (initState bs) =
     (Continue, \<lparr>currentBenchmark = Some sampleRecord, lineCount = 3, benchmarkCount = 0,
                 benchmarks = bs\<rparr>)"
proof -
  let ?s1 = "(initState bs)\<lparr>lineCount := lineCount (initState bs) + 1,
      currentBenchmark := Some (extractFields sampleBoundary (newBenchmark ''AK''))\<rparr>"
  have step: "lineStep samplePath ''AK'' sampleBoundary (initState bs) = (Continue, ?s1)"
    by (rule lineStep_boundary_invalid [OF sample_isBoundary]) (simp add: initState_def)
  have cur: "currentBenchmark ?s1 = Some (extractFields sampleBoundary (newBenchmark ''AK''))"
    by simp
  have "forLines samplePath ''AK'' sampleBlock (initState bs) =
          forLines samplePath ''AK'' [samplePid, samplePosition] ?s1"
    by (simp only: sampleBlock_def forLines.simps step prod.case ctl.case)
  also have "\<dots> = (Continue, ?s1\<lparr>lineCount := lineCount ?s1 + length [samplePid, samplePosition],
      currentBenchmark := Some sampleRecord\<rparr>)"
    by (simp only: forLines_block [OF sample_inner cur] sample_fold)
  finally show ?thesis
    by (simp add: initState_def)
qed

lemma forLines_sampleBlock:
  assumes "currentBenchmark s = Some sampleRecord" "benchmarkCount s + 1 < maxBenchmarks"
  shows "forLines samplePath ''AK'' sampleBlock s =
     (Continue, s\<lparr>lineCount := lineCount s + 3,
                  currentBenchmark := Some sampleRecord,
                  benchmarks := benchmarks s @ [sampleSaved],
                  benchmarkCount := benchmarkCount s + 1\<rparr>)"
proof -
  let ?s1 = "s\<lparr>lineCount := lineCount s + 1,
                currentBenchmark := Some (extractFields sampleBoundary (newBenchmark ''AK'')),
                benchmarks := benchmarks s @ [saveBenchmark samplePath ''AK'' sampleRecord],
                benchmarkCount := benchmarkCount s + 1\<rparr>"
  have step: "lineStep samplePath ''AK'' sampleBoundary s = (Continue, ?s1)"
    by (rule lineStep_boundary_valid [OF sample_isBoundary assms(1) sample_valid assms(2)])
  have cur: "currentBenchmark ?s1 = Some (extractFields sampleBoundary (newBenchmark ''AK''))"
    by simp
  have "forLines samplePath ''AK'' sampleBlock s =
          forLines samplePath ''AK'' [samplePid, samplePosition] ?s1"
    by (simp only: sampleBlock_def forLines.simps step prod.case ctl.case)
  also have "\<dots> = (Continue, ?s1\<lparr>lineCount := lineCount ?s1 + length [samplePid, samplePosition],
      currentBenchmark := Some sampleRecord\<rparr>)"
    by (simp only: forLines_block [OF sample_inner cur] sample_fold)
  finally show ?thesis
    by (simp add: sample_saved)
qed

lemma forLines_replicate:
  assumes "currentBenchmark s = Some sampleRecord" "benchmarkCount s + n < maxBenchmarks"
  shows "forLines samplePath ''AK'' (concat (replicate n sampleBlock)) s =
     (Continue, s\<lparr>lineCount := lineCount s + 3 * n,
                  currentBenchmark := Some sampleRecord,
                  benchmarks := benchmarks s @ replicate n sampleSaved,
                  benchmarkCount := benchmarkCount s + n\<rparr>)"
  using assms
proof (induction n arbitrary: s)
  case 0
  then show ?case by simp
next
  case (Suc n)
  let ?s1 = "s\<lparr>lineCount := lineCount s + 3,
                currentBenchmark := Some sampleRecord,
                benchmarks := benchmarks s @ [sampleSaved],
                benchmarkCount := benchmarkCount s + 1\<rparr>"
  have b: "forLines samplePath ''AK'' sampleBlock s = (Continue, ?s1)"
    using Suc.prems by (intro forLines_sampleBlock) simp_all
  have "forLines samplePath ''AK'' (concat (replicate n sampleBlock)) ?s1 =
     (Continue, ?s1\<lparr>lineCount := lineCount ?s1 + 3 * n,
                  currentBenchmark := Some sampleRecord,
                  benchmarks := benchmarks ?s1 @ replicate n sampleSaved,
                  benchmarkCount := benchmarkCount ?s1 + n\<rparr>)"
    using Suc.prems by (intro Suc.IH) simp_all
  then show ?case
    by (simp add: forLines_append b replicate_app_Cons_same)
qed

lemma forLines_sampleFile:
  assumes "n < maxBenchmarks"
  shows "forLines samplePath ''AK'' (sampleBlock @ concat (replicate n sampleBlock)) (initState bs) =
     (Continue, \<lparr>currentBenchmark = Some sampleRecord, lineCount = 3 + 3 * n,
                 benchmarkCount = n, benchmarks = bs @ replicate n sampleSaved\<rparr>)"
proof -
  let ?s0 = "\<lparr>currentBenchmark = Some sampleRecord, lineCount = 3, benchmarkCount = 0,
                 benchmarks = bs\<rparr>"
  have "forLines samplePath ''AK'' (concat (replicate n sampleBlock)) ?s0 =
     (Continue, ?s0\<lparr>lineCount := lineCount ?s0 + 3 * n,
                  currentBenchmark := Some sampleRecord,
                  benchmarks := benchmarks ?s0 @ replicate n sampleSaved,
                  benchmarkCount := benchmarkCount ?s0 + n\<rparr>)"
    using assms by (intro forLines_replicate) simp_all
  then show ?thesis
    by (simp add: forLines_append forLines_sampleBlock_first)
qed

subsection \<open>Retention\<close>

text \<open>
  Claim C1 says that a record is appended at its finalisation if and only if id, latitude
  and longitude are non-null. The test is on truthiness: in the first file below the open
  record at the end of input has all three set, with latitude \<open>0\<close>, in the second one
  with latitude \<open>NaN\<close> (the seconds capture is a lone dot), and neither file yields a
  record.
\<close>

theorem retention_nonnull_counterexample:
  "map_option (\<lambda>b. (id_fld b, latitude b, longitude b))
     (currentBenchmark (snd (forLines samplePath ''AK''
        [sampleBoundary, samplePid, zeroPosition] (initState []))))
     = Some (Some ''AB1234'', Some (Val 0), Some (Val (- 75)))
   \<and> parseDatasheetFile samplePath ''AK'' [sampleBoundary, samplePid, zeroPosition] [] = (0, [])
   \<and> map_option (\<lambda>b. (id_fld b, latitude b, longitude b))
     (currentBenchmark (snd (forLines samplePath ''AK''
        [sampleBoundary, samplePid, nanPosition] (initState []))))
     = Some (Some ''AB1234'', Some NaN, Some (Val (- 75)))
   \<and> parseDatasheetFile samplePath ''AK'' [sampleBoundary, samplePid, nanPosition] [] = (0, [])"
  by code_simp

text \<open>
  Claim C1, as the code has it: at a finalisation (a boundary line, or the end of input) the
  open record is appended, saved, when its id is a non-empty string and its latitude and
  longitude are numbers other than zero; it is discarded, without any other effect on the
  collection, when id, latitude or longitude is null or a coordinate is \<open>NaN\<close>; a line
  that is not a boundary line appends nothing. (Nothing is said here about a coordinate that
  is exactly zero.)
\<close>

theorem finalisation_retention:
  assumes "currentBenchmark s = Some b" and "isBoundary line"
  shows "(id_fld b = None \<or> latitude b = None \<or> longitude b = None
            \<or> latitude b = Some NaN \<or> longitude b = Some NaN
          \<longrightarrow> benchmarks (flush fp sc s) = benchmarks s
              \<and> benchmarks (snd (lineStep fp sc line s)) = benchmarks s)
    \<and> (id_fld b = Some i \<and> i \<noteq> [] \<and> latitude b = Some (Val x) \<and> x \<noteq> 0
            \<and> longitude b = Some (Val y) \<and> y \<noteq> 0
          \<longrightarrow> benchmarks (flush fp sc s) = benchmarks s @ [saveBenchmark fp sc b]
              \<and> benchmarks (snd (lineStep fp sc line s)) = benchmarks s @ [saveBenchmark fp sc b])
    \<and> (\<not> isBoundary l \<longrightarrow> benchmarks (snd (lineStep fp sc l s)) = benchmarks s)"
proof (intro conjI impI)
  assume n: "id_fld b = None \<or> latitude b = None \<or> longitude b = None
            \<or> latitude b = Some NaN \<or> longitude b = Some NaN"
  then have "\<not> hasValidData b"
    by (auto simp add: hasValidData_def truthyNum_iff truthyStr_iff)
  then have e: "emitted fp sc (currentBenchmark s) = []"
    using assms(1) by (simp add: emitted_def)
  show "benchmarks (flush fp sc s) = benchmarks s"
    by (simp add: flush_benchmarks e)
  show "benchmarks (snd (lineStep fp sc line s)) = benchmarks s"
    by (simp add: lineStep_benchmarks e)
next
  assume v: "id_fld b = Some i \<and> i \<noteq> [] \<and> latitude b = Some (Val x) \<and> x \<noteq> 0
            \<and> longitude b = Some (Val y) \<and> y \<noteq> 0"
  then have "hasValidData b"
    by (simp add: hasValidData_def truthyNum_iff truthyStr_iff)
  then have e: "emitted fp sc (currentBenchmark s) = [saveBenchmark fp sc b]"
    using assms(1) by (simp add: emitted_def)
  show "benchmarks (flush fp sc s) = benchmarks s @ [saveBenchmark fp sc b]"
    by (simp add: flush_benchmarks e)
  show "benchmarks (snd (lineStep fp sc line s)) = benchmarks s @ [saveBenchmark fp sc b]"
    using assms(2) by (simp add: lineStep_benchmarks e)
next
  assume "\<not> isBoundary l"
  then show "benchmarks (snd (lineStep fp sc l s)) = benchmarks s"
    by (simp add: lineStep_benchmarks)
qed

theorem finalisation_retention_witness:
  "benchmarks (flush samplePath ''AK''
      \<lparr>currentBenchmark = Some sampleRecord, lineCount = 3, benchmarkCount = 0, benchmarks = []\<rparr>)
     = [sampleSaved]
   \<and> benchmarks (snd (lineStep samplePath ''AK'' sampleBoundary
      \<lparr>currentBenchmark = Some sampleRecord, lineCount = 3, benchmarkCount = 0, benchmarks = []\<rparr>))
     = [sampleSaved]
   \<and> benchmarks (flush samplePath ''AK''
      \<lparr>currentBenchmark = Some (newBenchmark ''AK''), lineCount = 1, benchmarkCount = 0,
        benchmarks = []\<rparr>) = []
   \<and> benchmarks (snd (lineStep samplePath ''AK'' samplePid
      \<lparr>currentBenchmark = Some sampleRecord, lineCount = 3, benchmarkCount = 0, benchmarks = []\<rparr>))
     = []"
proof -
  let ?s = "\<lparr>currentBenchmark = Some sampleRecord, lineCount = 3, benchmarkCount = 0,
             benchmarks = []\<rparr>"
  let ?t = "\<lparr>currentBenchmark = Some (newBenchmark ''AK''), lineCount = 1, benchmarkCount = 0,
             benchmarks = []\<rparr>"
  have hs: "currentBenchmark ?s = Some sampleRecord" by simp
  have ht: "currentBenchmark ?t = Some (newBenchmark ''AK'')" by simp
  have v: "id_fld sampleRecord = Some ''AB1234'' \<and> ''AB1234'' \<noteq> []
      \<and> latitude sampleRecord = Some (Val (455 / 10)) \<and> (455 / 10 :: rat) \<noteq> 0
      \<and> longitude sampleRecord = Some (Val (- (1225 / 10))) \<and> (- (1225 / 10) :: rat) \<noteq> 0"
    by (simp add: sampleRecord_def)
  have n: "id_fld (newBenchmark ''AK'') = None"
    by (simp add: newBenchmark_def)
  have nb: "\<not> isBoundary samplePid" by code_simp
  have a: "benchmarks (flush samplePath ''AK'' ?s) = benchmarks ?s @ [saveBenchmark samplePath ''AK'' sampleRecord]
      \<and> benchmarks (snd (lineStep samplePath ''AK'' sampleBoundary ?s))
          = benchmarks ?s @ [saveBenchmark samplePath ''AK'' sampleRecord]"
    using finalisation_retention [OF hs sample_isBoundary, where i = "''AB1234''"
        and x = "455 / 10" and y = "- (1225 / 10)" and fp = samplePath and sc = "''AK''"
        and l = samplePid] v
    by blast
  have c: "benchmarks (snd (lineStep samplePath ''AK'' samplePid ?s)) = benchmarks ?s"
    using finalisation_retention [OF hs sample_isBoundary, where i = "''AB1234''"
        and x = "455 / 10" and y = "- (1225 / 10)" and fp = samplePath and sc = "''AK''"
        and l = samplePid] nb
    by blast
  have b: "benchmarks (flush samplePath ''AK'' ?t) = benchmarks ?t"
    using finalisation_retention [OF ht sample_isBoundary, where i = "''AB1234''"
        and x = "455 / 10" and y = "- (1225 / 10)" and fp = samplePath and sc = "''AK''"
        and l = samplePid] n
    by blast
  show ?thesis
    using a b c by (simp add: sample_saved)
qed

text \<open>
  Claim C2: whatever the file, the collection keeps the records it had and every record the
  call appends has a latitude and a longitude that are numbers different from \<open>0\<close> and a
  non-empty id; a complete record whose latitude or longitude is exactly \<open>0\<close> is not
  appended, neither at a boundary line nor at the end of input.
\<close>

theorem emitted_records_truthy:
  "take (length bs) (snd (parseDatasheetFile fp sc ls bs)) = bs
   \<and> (\<forall>r \<in> set (drop (length bs) (snd (parseDatasheetFile fp sc ls bs))).
        latitude r \<notin> {None, Some NaN, Some (Val 0)}
        \<and> longitude r \<notin> {None, Some NaN, Some (Val 0)}
        \<and> id_fld r \<notin> {None, Some []})
   \<and> (currentBenchmark s = Some b \<and> (latitude b = Some (Val 0) \<or> longitude b = Some (Val 0))
        \<longrightarrow> benchmarks (flush fp sc s) = benchmarks s
          \<and> benchmarks (snd (lineStep fp sc line s)) = benchmarks s)"
proof (intro conjI impI ballI)
  obtain new where new: "parseDatasheetFile fp sc ls bs = (length new, bs @ new)"
    "set new \<subseteq> set (take maxBenchmarks (unlimited fp sc ls None))"
    by (rule parse_result [of fp sc ls bs]) blast
  show "take (length bs) (snd (parseDatasheetFile fp sc ls bs)) = bs"
    by (simp add: new(1))
  fix r
  assume "r \<in> set (drop (length bs) (snd (parseDatasheetFile fp sc ls bs)))"
  then have "r \<in> set new" by (simp add: new(1))
  then have "r \<in> set (unlimited fp sc ls None)"
    using new(2) by (meson in_set_takeD subsetD)
  then have v: "hasValidData r" using unlimited_valid by blast
  show "latitude r \<notin> {None, Some NaN, Some (Val 0)}"
    using v by (auto simp add: hasValidData_def truthyNum_iff)
  show "longitude r \<notin> {None, Some NaN, Some (Val 0)}"
    using v by (auto simp add: hasValidData_def truthyNum_iff)
  show "id_fld r \<notin> {None, Some []}"
    using v by (auto simp add: hasValidData_def truthyStr_iff)
next
  assume z: "currentBenchmark s = Some b \<and> (latitude b = Some (Val 0) \<or> longitude b = Some (Val 0))"
  then have "\<not> hasValidData b" by (auto simp add: hasValidData_def truthyNum_iff)
  then have e: "emitted fp sc (currentBenchmark s) = []"
    using z by (simp add: emitted_def)
  show "benchmarks (flush fp sc s) = benchmarks s"
    by (simp add: flush_benchmarks e)
  show "benchmarks (snd (lineStep fp sc line s)) = benchmarks s"
    by (simp add: lineStep_benchmarks e)
qed

theorem emitted_records_truthy_witness:
  "map latitude (drop (length ([] :: benchmark list))
      (snd (parseDatasheetFile samplePath ''AK'' sampleBlock []))) = [Some (Val (455 / 10))]
   \<and> Some (Val (455 / 10)) \<notin> {None, Some NaN, Some (Val 0)}
   \<and> benchmarks (flush samplePath ''AK''
        \<lparr>currentBenchmark = Some (sampleRecord\<lparr>latitude := Some (Val 0)\<rparr>), lineCount = 3,
          benchmarkCount = 0, benchmarks = []\<rparr>) = []"
proof -
  let ?z = "\<lparr>currentBenchmark = Some (sampleRecord\<lparr>latitude := Some (Val 0)\<rparr>), lineCount = 3,
          benchmarkCount = 0, benchmarks = []\<rparr>"
  have out: "snd (parseDatasheetFile samplePath ''AK'' sampleBlock []) = [sampleSaved]"
    by code_simp
  have mem: "sampleSaved \<in> set (drop (length ([] :: benchmark list))
      (snd (parseDatasheetFile samplePath ''AK'' sampleBlock [])))"
    by (simp add: out)
  have z: "currentBenchmark ?z = Some (sampleRecord\<lparr>latitude := Some (Val 0)\<rparr>)
     \<and> (latitude (sampleRecord\<lparr>latitude := Some (Val 0)\<rparr>) = Some (Val 0)
         \<or> longitude (sampleRecord\<lparr>latitude := Some (Val 0)\<rparr>) = Some (Val 0))"
    by simp
  note t = emitted_records_truthy [where bs = "[]" and fp = samplePath and sc = "''AK''"
      and ls = sampleBlock and s = ?z and b = "sampleRecord\<lparr>latitude := Some (Val 0)\<rparr>"
      and line = sampleBoundary]
  have a: "latitude sampleSaved \<notin> {None, Some NaN, Some (Val 0)}"
    using t mem by blast
  have b: "benchmarks (flush samplePath ''AK'' ?z) = benchmarks ?z"
    using t z by blast
  have l: "latitude sampleSaved = Some (Val (455 / 10))"
    by (simp add: sampleSaved_def sampleRecord_def)
  show ?thesis
    using a b by (simp add: out l)
qed

subsection \<open>The limit per file\<close>

text \<open>
  Claim C4 says that no limit on the number of records of a file is enforced. The loop
  stops at \<open>maxBenchmarks = 1000\<close>: the last block of the second file below is a valid
  record on its own (first conjunct), it follows 1000 valid records, and it is not in the
  output.
\<close>

theorem record_limit_counterexample:
  "map id_fld (snd (parseDatasheetFile samplePath ''AK''
       [sampleBoundary, otherPid, samplePosition] [])) = [Some ''ZZ9999'']
   \<and> map id_fld (snd (parseDatasheetFile samplePath ''AK''
       ((sampleBlock @ concat (replicate 999 sampleBlock))
          @ sampleBoundary # [otherPid, samplePosition]) []))
     = replicate 999 (Some ''AB1234'') @ [Some ''AB1234'', Some ''AB1234'']"
proof
  show "map id_fld (snd (parseDatasheetFile samplePath ''AK''
       [sampleBoundary, otherPid, samplePosition] [])) = [Some ''ZZ9999'']"
    by code_simp
next
  let ?s = "\<lparr>currentBenchmark = Some sampleRecord, lineCount = 3 + 3 * 999,
             benchmarkCount = 999, benchmarks = [] @ replicate 999 sampleSaved\<rparr>"
  have lt: "999 < maxBenchmarks" by (simp add: maxBenchmarks_def)
  have h1: "forLines samplePath ''AK'' (sampleBlock @ concat (replicate 999 sampleBlock))
      (initState []) = (Continue, ?s)"
    by (rule forLines_sampleFile [OF lt])
  have h2: "currentBenchmark ?s = Some sampleRecord" by (simp only: pstate.simps)
  have h4: "benchmarkCount ?s + 1 = maxBenchmarks"
    by (simp only: pstate.simps maxBenchmarks_def)
  have r: "parseDatasheetFile samplePath ''AK''
       ((sampleBlock @ concat (replicate 999 sampleBlock))
          @ sampleBoundary # [otherPid, samplePosition]) []
     = (maxBenchmarks + 1, benchmarks ?s @ [saveBenchmark samplePath ''AK'' sampleRecord,
          saveBenchmark samplePath ''AK'' sampleRecord])"
    by (rule cap_run(2) [OF h1 h2 sample_valid h4 sample_isBoundary])
  have i: "id_fld sampleSaved = Some ''AB1234''"
    by (simp add: sampleSaved_def sampleRecord_def)
  show "map id_fld (snd (parseDatasheetFile samplePath ''AK''
       ((sampleBlock @ concat (replicate 999 sampleBlock))
          @ sampleBoundary # [otherPid, samplePosition]) []))
     = replicate 999 (Some ''AB1234'') @ [Some ''AB1234'', Some ''AB1234'']"
    by (simp only: r snd_conv pstate.simps sample_saved map_append map_replicate list.map i
        append_Nil)
qed

text \<open>
  Claim C4, as the code has it: the records of a file are emitted up to the limit
  \<open>maxBenchmarks = 1000\<close>. The first 1000 valid records of the file (the first 1000 of
  what the loop without the limit yields) are appended, in file order, whatever precedes
  them; no record past the 1000th valid one is appended.
\<close>

theorem record_limit:
  "take (length bs) (snd (parseDatasheetFile fp sc ls bs)) = bs
   \<and> take maxBenchmarks (drop (length bs) (snd (parseDatasheetFile fp sc ls bs)))
       = take maxBenchmarks (unlimited fp sc ls None)
   \<and> set (drop (length bs) (snd (parseDatasheetFile fp sc ls bs)))
       \<subseteq> set (take maxBenchmarks (unlimited fp sc ls None))
   \<and> maxBenchmarks = 1000"
proof -
  obtain new where new: "parseDatasheetFile fp sc ls bs = (length new, bs @ new)"
    "take maxBenchmarks new = take maxBenchmarks (unlimited fp sc ls None)"
    "set new \<subseteq> set (take maxBenchmarks (unlimited fp sc ls None))"
    by (rule parse_result [of fp sc ls bs])
  show ?thesis
    using new(2) new(3) by (simp add: new(1) maxBenchmarks_def)
qed

theorem record_limit_witness:
  "take maxBenchmarks (drop (length ([] :: benchmark list))
      (snd (parseDatasheetFile samplePath ''AK'' (sampleBlock @ sampleBlock) [])))
     = [sampleSaved, sampleSaved]"
proof -
  have u: "unlimited samplePath ''AK'' (sampleBlock @ sampleBlock) None = [sampleSaved, sampleSaved]"
    by code_simp
  have "take maxBenchmarks [sampleSaved, sampleSaved] = [sampleSaved, sampleSaved]"
    by (simp add: maxBenchmarks_def)
  then show ?thesis
    using record_limit [where bs = "[]" and fp = samplePath and sc = "''AK''"
        and ls = "sampleBlock @ sampleBlock"]
    by (simp only: u)
qed

text \<open>
  Claim C10: when the boundary line that finalises the 1000th valid record of the file is
  read (999 records emitted before it, the open record valid), the loop stops at that line:
  no fresh record is installed, the lines after it are not read, and the block after the
  loop appends the same record again, so the call returns 1001 and the record occurs twice
  in a row at the end of the collection.
\<close>

theorem limit_duplicates_last:
  assumes "forLines fp sc pre (initState bs) = (Continue, s)"
    and "currentBenchmark s = Some b" and "hasValidData b"
    and "benchmarkCount s + 1 = maxBenchmarks" and "isBoundary line"
  shows "parseDatasheetFile fp sc (pre @ line # rest) bs =
           (1001, benchmarks s @ [saveBenchmark fp sc b, saveBenchmark fp sc b])
    \<and> currentBenchmark (snd (forLines fp sc (pre @ line # rest) (initState bs)))
        = Some (saveBenchmark fp sc b)
    \<and> lineCount (snd (forLines fp sc (pre @ line # rest) (initState bs))) = length pre + 1
    \<and> benchmarkCount s = 999"
proof -
  have lc: "lineCount s = length pre"
    using forLines_continue_lineCount [OF assms(1)] by (simp add: initState_def)
  have m: "maxBenchmarks + 1 = 1001" "benchmarkCount s = 999"
    using assms(4) by (simp_all add: maxBenchmarks_def)
  show ?thesis
    using cap_run [OF assms, of rest] lc m by simp
qed

theorem limit_duplicates_last_witness:
  "parseDatasheetFile samplePath ''AK''
     ((sampleBlock @ concat (replicate 999 sampleBlock))
        @ sampleBoundary # [otherPid, samplePosition]) []
   = (1001, replicate 999 sampleSaved @ [sampleSaved, sampleSaved])"
proof -
  let ?s = "\<lparr>currentBenchmark = Some sampleRecord, lineCount = 3 + 3 * 999,
             benchmarkCount = 999, benchmarks = [] @ replicate 999 sampleSaved\<rparr>"
  have lt: "999 < maxBenchmarks" by (simp add: maxBenchmarks_def)
  have h1: "forLines samplePath ''AK'' (sampleBlock @ concat (replicate 999 sampleBlock))
      (initState []) = (Continue, ?s)"
    by (rule forLines_sampleFile [OF lt])
  have h2: "currentBenchmark ?s = Some sampleRecord" by (simp only: pstate.simps)
  have h4: "benchmarkCount ?s + 1 = maxBenchmarks"
    by (simp only: pstate.simps maxBenchmarks_def)
  show ?thesis
    using limit_duplicates_last [OF h1 h2 sample_valid h4 sample_isBoundary,
        of "[otherPid, samplePosition]"]
    by (simp only: pstate.simps sample_saved append_Nil) 
qed

subsection \<open>Coordinate conversion\<close>

text \<open>
  Claim C8: on a position line that matches, latitude and longitude are
  \<open>deg + min / 60 + sec / 3600\<close> of the captures, negated exactly for the hemisphere
  letters \<open>S\<close> and \<open>W\<close>; no range is checked (95 degrees 70 minutes south and 200
  degrees east are accepted); \<open>45 30 0.00(N) 122 30 0.00(W)\<close> gives \<open>(45.5, -122.5)\<close>.
  The arithmetic is exact in the model.
\<close>

theorem dms_conversion:
  assumes "includes_str line ''POSITION-''"
    and "includes_str line ''N)'' \<or> includes_str line ''S)''"
    and "includes_str line ''W)'' \<or> includes_str line ''E)''"
    and "str_match line coordRegex =
           Some [latDeg, latMin, latSec, latHem, lonDeg, lonMin, lonSec, lonHem]"
    and "parseInt latDeg = Val d1" and "parseInt latMin = Val m1" and "parseFloat latSec = Val s1"
    and "parseInt lonDeg = Val d2" and "parseInt lonMin = Val m2" and "parseFloat lonSec = Val s2"
  shows "latitude (extractFields line b) =
           Some (Val (if latHem = ''S'' then - (d1 + m1 / 60 + s1 / 3600)
                      else d1 + m1 / 60 + s1 / 3600))
    \<and> longitude (extractFields line b) =
           Some (Val (if lonHem = ''W'' then - (d2 + m2 / 60 + s2 / 3600)
                      else d2 + m2 / 60 + s2 / 3600))
    \<and> positionOf ''NAD 83(2011) POSITION- 45 30 0.00(N) 122 30 0.00(W)   ADJUSTED''
         = Some (Val (455 / 10), Val (- (1225 / 10)))
    \<and> positionOf ''NAD 83(2011) POSITION- 95 70 0.00(S) 200 00 0.00(E)   ADJUSTED''
         = Some (Val (- (95 + 70 / 60)), Val 200)"
proof -
  have pos: "positionOf line =
      Some (Val (if latHem = ''S'' then - (d1 + m1 / 60 + s1 / 3600)
                 else d1 + m1 / 60 + s1 / 3600),
            Val (if lonHem = ''W'' then - (d2 + m2 / 60 + s2 / 3600)
                 else d2 + m2 / 60 + s2 / 3600))"
    using assms by (simp add: positionOf_def convertCaptures_def dmsToDecimal_def)
  have ll: "latitude (extractFields line b) =
           Some (Val (if latHem = ''S'' then - (d1 + m1 / 60 + s1 / 3600)
                      else d1 + m1 / 60 + s1 / 3600))
    \<and> longitude (extractFields line b) =
           Some (Val (if lonHem = ''W'' then - (d2 + m2 / 60 + s2 / 3600)
                      else d2 + m2 / 60 + s2 / 3600))"
    using position_extractFields [of line b] by (simp only: pos option.case prod.case prod.inject)
  have e1: "positionOf ''NAD 83(2011) POSITION- 45 30 0.00(N) 122 30 0.00(W)   ADJUSTED''
         = Some (Val (455 / 10), Val (- (1225 / 10)))"
    by code_simp
  have e2: "positionOf ''NAD 83(2011) POSITION- 95 70 0.00(S) 200 00 0.00(E)   ADJUSTED''
         = Some (Val (- (95 + 70 / 60)), Val 200)"
    by code_simp
  show ?thesis using ll e1 e2 by blast
qed

theorem dms_conversion_witness:
  "latitude (extractFields ''NAD 83(2011) POSITION- 45 30 0.00(N) 122 30 0.00(W)   ADJUSTED''
      (newBenchmark ''OR'')) = Some (Val (455 / 10))
   \<and> longitude (extractFields ''NAD 83(2011) POSITION- 45 30 0.00(N) 122 30 0.00(W)   ADJUSTED''
      (newBenchmark ''OR'')) = Some (Val (- (1225 / 10)))"
proof -
  let ?l = "''NAD 83(2011) POSITION- 45 30 0.00(N) 122 30 0.00(W)   ADJUSTED''"
  have h1: "includes_str ?l ''POSITION-''" by code_simp
  have h2: "includes_str ?l ''N)'' \<or> includes_str ?l ''S)''" by code_simp
  have h3: "includes_str ?l ''W)'' \<or> includes_str ?l ''E)''" by code_simp
  have h4: "str_match ?l coordRegex = Some [''45'', ''30'', ''0.00'', ''N'', ''122'', ''30'', ''0.00'', ''W'']"
    by code_simp
  have p1: "parseInt ''45'' = Val 45" by code_simp
  have p2: "parseInt ''30'' = Val 30" by code_simp
  have p3: "parseFloat ''0.00'' = Val 0" by code_simp
  have p4: "parseInt ''122'' = Val 122" by code_simp
  show ?thesis
    using dms_conversion [OF h1 h2 h3 h4 p1 p2 p3 p4 p2 p3, of "newBenchmark ''OR''"]
    by simp
qed

subsection \<open>End of input\<close>

text \<open>
  Claim C9 says that the last record of a file is retained, when it is valid, by the block
  after the loop. The limit of \<open>maxBenchmarks = 1000\<close> can stop the loop before the last
  block is read: the last block of the second file below is a valid record on its own
  (first conjunct), it follows 1000 valid records, the loop ends with \<open>break\<close> at the
  boundary line before it, and the block after the loop appends the 1000th record again,
  not the last one.
\<close>

theorem end_of_input_flush_counterexample:
  "parseDatasheetFile samplePath ''AK'' [sampleBoundary, otherPid, samplePosition] []
     = (1, [sampleSaved\<lparr>id_fld := Some ''ZZ9999''\<rparr>])
   \<and> fst (forLines samplePath ''AK''
       ((sampleBlock @ concat (replicate 999 sampleBlock))
          @ sampleBoundary # [otherPid, samplePosition]) (initState [])) = Break
   \<and> parseDatasheetFile samplePath ''AK''
       ((sampleBlock @ concat (replicate 999 sampleBlock))
          @ sampleBoundary # [otherPid, samplePosition]) []
     = (1001, replicate 999 sampleSaved @ [sampleSaved, sampleSaved])"
proof (intro conjI)
  show "parseDatasheetFile samplePath ''AK'' [sampleBoundary, otherPid, samplePosition] []
     = (1, [sampleSaved\<lparr>id_fld := Some ''ZZ9999''\<rparr>])"
    by code_simp
next
  let ?s = "\<lparr>currentBenchmark = Some sampleRecord, lineCount = 3 + 3 * 999,
             benchmarkCount = 999, benchmarks = [] @ replicate 999 sampleSaved\<rparr>"
  have lt: "999 < maxBenchmarks" by (simp add: maxBenchmarks_def)
  have h1: "forLines samplePath ''AK'' (sampleBlock @ concat (replicate 999 sampleBlock))
      (initState []) = (Continue, ?s)"
    by (rule forLines_sampleFile [OF lt])
  have h2: "currentBenchmark ?s = Some sampleRecord" by (simp only: pstate.simps)
  have h4: "benchmarkCount ?s + 1 = maxBenchmarks"
    by (simp only: pstate.simps maxBenchmarks_def)
  have m: "maxBenchmarks + 1 = 1001" by (simp add: maxBenchmarks_def)
  show "fst (forLines samplePath ''AK''
       ((sampleBlock @ concat (replicate 999 sampleBlock))
          @ sampleBoundary # [otherPid, samplePosition]) (initState [])) = Break"
    by (simp only: cap_run(1) [OF h1 h2 sample_valid h4 sample_isBoundary] fst_conv)
  show "parseDatasheetFile samplePath ''AK''
       ((sampleBlock @ concat (replicate 999 sampleBlock))
          @ sampleBoundary # [otherPid, samplePosition]) []
     = (1001, replicate 999 sampleSaved @ [sampleSaved, sampleSaved])"
    by (simp only: cap_run(2) [OF h1 h2 sample_valid h4 sample_isBoundary] m pstate.simps
        sample_saved append_Nil)
qed

text \<open>
  Claim C9, as the code has it: when the limit has not stopped the loop and the input ends
  while a record is open, after a last block \<open>block\<close> without a boundary line, the loop
  itself has appended nothing for that record, and the block after the loop validates it
  and, if it is valid, appends it and counts it: the block after the loop is the only
  emission path for the last record.
\<close>

theorem end_of_input_flush:
  assumes "forLines fp sc pre (initState bs) = (Continue, s)"
    and "currentBenchmark s = Some b"
    and "\<forall>l \<in> set block. \<not> isBoundary l"
  shows "benchmarks (snd (forLines fp sc (pre @ block) (initState bs))) = benchmarks s
    \<and> parseDatasheetFile fp sc (pre @ block) bs =
        (if hasValidData (fold extractFields block b)
         then (benchmarkCount s + 1,
               benchmarks s @ [saveBenchmark fp sc (fold extractFields block b)])
         else (benchmarkCount s, benchmarks s))"
proof -
  have run: "forLines fp sc (pre @ block) (initState bs) =
      (Continue, s\<lparr>lineCount := lineCount s + length block,
                   currentBenchmark := Some (fold extractFields block b)\<rparr>)"
    by (simp add: forLines_append assms(1) forLines_block [OF assms(3) assms(2)])
  show ?thesis
    by (simp add: parseDatasheetFile_def run flush_def Let_def)
qed

theorem end_of_input_flush_witness:
  "parseDatasheetFile samplePath ''AK''
     ([sampleBoundary] @
      ['' AB1234  PID         -  AB1234'',
       ''NAD 83(2011) POSITION- 45 30 0.00(N) 122 30 0.00(W)   ADJUSTED'']) []
   = (1, [\<lparr>id_fld = Some ''AB1234'', name_fld = None, type_fld = ''Control Point'',
           latitude = Some (Val (455 / 10)), longitude = Some (Val (- (1225 / 10))),
           elevation = None, state_fld = ''AK'',
           description = Some ''NGS Control Point control point in AK'',
           datasheet_url = Some ''/data/datasheets/AK/AK.txt''\<rparr>])"
proof -
  let ?s = "\<lparr>currentBenchmark = Some (newBenchmark ''AK''), lineCount = 1, benchmarkCount = 0,
             benchmarks = []\<rparr>"
  let ?block = "['' AB1234  PID         -  AB1234'',
       ''NAD 83(2011) POSITION- 45 30 0.00(N) 122 30 0.00(W)   ADJUSTED'']"
  have h1: "forLines samplePath ''AK'' [sampleBoundary] (initState []) = (Continue, ?s)"
    by code_simp
  have h2: "currentBenchmark ?s = Some (newBenchmark ''AK'')" by simp
  have h3: "\<forall>l \<in> set ?block. \<not> isBoundary l" by code_simp
  have v: "hasValidData (fold extractFields ?block (newBenchmark ''AK''))" by code_simp
  have r: "saveBenchmark samplePath ''AK'' (fold extractFields ?block (newBenchmark ''AK'')) =
     \<lparr>id_fld = Some ''AB1234'', name_fld = None, type_fld = ''Control Point'',
           latitude = Some (Val (455 / 10)), longitude = Some (Val (- (1225 / 10))),
           elevation = None, state_fld = ''AK'',
           description = Some ''NGS Control Point control point in AK'',
           datasheet_url = Some ''/data/datasheets/AK/AK.txt''\<rparr>"
    by code_simp
  show ?thesis
    using end_of_input_flush [OF h1 h2 h3] v r by simp
qed

end
